theory Spec2Isabelle
  imports Complex_Main "HOL-Library.Sublist"
begin

section \<open>Strings\<close>

text \<open>
  A JavaScript string is modelled as a list of code units; the model covers the code units
  below 256 (ASCII and the Latin-1 supplement). Timestamps are real numbers of seconds.
\<close>

type_synonym jstring = "char list"

definition toLowerCase_char :: "char \<Rightarrow> char" where
  "toLowerCase_char c =
     (let n = (of_char c :: nat)
      in if (65 \<le> n \<and> n \<le> 90) \<or> (192 \<le> n \<and> n \<le> 222 \<and> n \<noteq> 215)
         then char_of (n + 32) else c)"

definition toLowerCase :: "jstring \<Rightarrow> jstring" where
  "toLowerCase s = map toLowerCase_char s"

text \<open>\<open>String.prototype.includes\<close>: the keyword occurs at some position of the string.\<close>

fun str_includes :: "jstring \<Rightarrow> jstring \<Rightarrow> bool" where
  "str_includes [] kw = (kw = [])"
| "str_includes (c # cs) kw = (prefix kw (c # cs) \<or> str_includes cs kw)"

section \<open>Errors and column types\<close>

text \<open>
  The errors the storage engine raises in the statements modelled here: a value outside
  the range of its numeric type (22003), a logarithm of zero or of a negative number
  (2201E), a sequence at its maximum (2200H), a string holding the character NUL, which
  the TEXT type does not store (22021), and a string too long for an entry of an index
  (54000). A raised error is the left summand of a result.
\<close>

datatype pg_error =
    NumericValueOutOfRange
  | InvalidArgumentForLogarithm
  | SequenceLimitExceeded
  | CharacterNotInRepertoire
  | ProgramLimitExceeded

definition bind_err :: "'e + 'a \<Rightarrow> ('a \<Rightarrow> 'e + 'b) \<Rightarrow> 'e + 'b" where
  "bind_err m f = (case m of Inl e \<Rightarrow> Inl e | Inr v \<Rightarrow> f v)"

text \<open>A query that computes a value for each row fails as a whole when one row fails.\<close>

fun map_err :: "('a \<Rightarrow> 'e + 'b) \<Rightarrow> 'a list \<Rightarrow> 'e + 'b list" where
  "map_err f [] = Inr []"
| "map_err f (x # xs) =
     bind_err (f x) (\<lambda>y. bind_err (map_err f xs) (\<lambda>ys. Inr (y # ys)))"

text \<open>The type INT of the columns \<open>id\<close> and \<open>access_count\<close>, and its addition.\<close>

definition INT_MAX :: int where
  "INT_MAX = 2147483647"

definition int4 :: "int \<Rightarrow> bool" where
  "int4 i = (- 2147483648 \<le> i \<and> i \<le> INT_MAX)"

definition int4pl :: "int \<Rightarrow> int \<Rightarrow> pg_error + int" where
  "int4pl a b = (if int4 (a + b) then Inr (a + b) else Inl NumericValueOutOfRange)"

definition text_ok :: "jstring \<Rightarrow> bool" where
  "text_ok s = (CHR 0x00 \<notin> set s)"

text \<open>
  What the storage engine computes and refuses is a parameter of the model. \<open>cast_real\<close>
  is the conversion of a double precision value to REAL, which rounds and raises outside
  the range of the type; \<open>pg_exp\<close> is the function EXP, which raises where its result
  overflows or underflows; \<open>index_fits\<close> says whether a string, as the engine compresses it,
  fits an entry of the B-tree indexes on \<open>topic\<close> and \<open>source\<close> and of the GIN index on
  \<open>tags\<close>. Arithmetic in double precision itself is taken as exact. \<open>exact_engine\<close> neither
  rounds nor raises.
\<close>

record engine =
  cast_real :: "real \<Rightarrow> pg_error + real"
  pg_exp :: "real \<Rightarrow> pg_error + real"
  index_fits :: "jstring \<Rightarrow> bool"

definition exact_engine :: engine where
  "exact_engine = \<lparr>cast_real = Inr, pg_exp = (\<lambda>x. Inr (exp x)), index_fits = (\<lambda>s. True)\<rparr>"

definition pg_ln :: "real \<Rightarrow> pg_error + real" where
  "pg_ln x = (if x \<le> 0 then Inl InvalidArgumentForLogarithm else Inr (ln x))"

text \<open>
  A property an engine may have. The conversion to REAL rounds to a nearest value of the
  type, and 0 and 1 are values of the type: what it returns for a number of the unit
  interval is in the unit interval.
\<close>

definition cast_within_unit :: "engine \<Rightarrow> bool" where
  "cast_within_unit eng =
     (\<forall>x v. cast_real eng x = Inr v \<and> 0 \<le> x \<and> x \<le> 1 \<longrightarrow> 0 \<le> v \<and> v \<le> 1)"


section \<open>Data model\<close>

datatype MemoryType = Core | Architecture | Pattern | Decision

record KnowledgeRow =
  id_row :: int
  topic :: jstring
  content :: jstring
  source :: jstring
  user_id :: jstring
  tags :: "jstring list"
  confidence :: real
  access_count :: int
  last_accessed :: "real option"
  memory_type :: MemoryType
  created_at :: real
  updated_at :: real

text \<open>
  The table \<open>tc_memory.knowledge\<close> with the sequence behind its SERIAL key. The code gives
  every column of a row it inserts a value or leaves it to a default, apart from
  \<open>last_accessed\<close>: no other column read here is NULL.
\<close>

record store =
  rows :: "KnowledgeRow list"
  next_id :: int

section \<open>Classifier\<close>

definition classifyMemoryType :: "jstring \<Rightarrow> jstring list \<Rightarrow> MemoryType" where
  "classifyMemoryType p_topic p_tags =
     (let t = toLowerCase p_topic;
          allTags = map toLowerCase p_tags
      in if str_includes t ''agent-rules'' \<or>
            str_includes t ''sheet-ids'' \<or>
            str_includes t ''api-key'' \<or>
            str_includes t ''credentials'' \<or>
            str_includes t ''deployment-id'' \<or>
            ''core'' \<in> set allTags
         then Core
         else if str_includes t ''cms-api'' \<or>
            str_includes t ''gas-webhook'' \<or>
            str_includes t ''pricing'' \<or>
            str_includes t ''stripe-api'' \<or>
            str_includes t ''infrastructure'' \<or>
            str_includes t ''architecture'' \<or>
            str_includes t ''invoice-pdf'' \<or>
            ''architecture'' \<in> set allTags
         then Architecture
         else if ''decision'' \<in> set allTags \<or> str_includes t ''decision''
         then Decision
         else Pattern)"

section \<open>Retention scorer\<close>

text \<open>
  The SQL function \<open>tc_memory.retention_score\<close>. \<open>NOW()\<close> is the parameter \<open>now\<close>;
  \<open>EXTRACT(EPOCH FROM (a - b)) / 86400.0\<close> is the difference of two timestamps in days.
  Every assignment to a variable declared REAL, the product of two REAL values and the
  RETURN convert to REAL. The CHECK constraint \<open>chk_memory_type\<close> admits the four memory
  types only, so the ELSE branch of the CASE is the branch of \<open>core\<close>, which has returned
  before.
\<close>

definition retention_score ::
  "engine \<Rightarrow> real \<Rightarrow> real \<Rightarrow> int \<Rightarrow> real option \<Rightarrow> MemoryType \<Rightarrow> jstring list \<Rightarrow> real
     \<Rightarrow> pg_error + real" where
  "retention_score eng now p_confidence p_access_count p_last_accessed p_memory_type p_tags
     p_created_at =
     (if ''protected'' \<in> set p_tags then cast_real eng 1.0
      else if p_memory_type = Core then cast_real eng (max p_confidence 0.9)
      else
        bind_err (cast_real eng (case p_memory_type of
                                  Architecture \<Rightarrow> 0.001
                                | Pattern \<Rightarrow> 0.005
                                | Decision \<Rightarrow> 0.01
                                | Core \<Rightarrow> 0.005)) (\<lambda>decay_rate.
        bind_err (cast_real eng
                   ((now - (case p_last_accessed of Some a \<Rightarrow> a | None \<Rightarrow> p_created_at))
                      / 86400)) (\<lambda>days_since_access.
        bind_err (cast_real eng ((now - p_created_at) / 86400)) (\<lambda>days_since_created.
        bind_err (cast_real eng (- decay_rate * days_since_created)) (\<lambda>exponent.
        bind_err (pg_exp eng exponent) (\<lambda>decay.
        bind_err (cast_real eng (p_confidence * decay)) (\<lambda>importance.
        bind_err (int4pl p_access_count 1) (\<lambda>accesses.
        bind_err (pg_ln (real_of_int accesses)) (\<lambda>log_accesses.
        bind_err (cast_real eng (min (log_accesses / ln 50) 1.0)) (\<lambda>access_freq.
        bind_err (cast_real eng (max (1.0 - days_since_access / 180) 0.0)) (\<lambda>recency.
        bind_err (cast_real eng (importance * 0.4 + access_freq * 0.3 + recency * 0.3))
          (\<lambda>score.
        cast_real eng (max (min score 1.0) 0.0)))))))))))))"

text \<open>The score of a stored row, as every query calls the function.\<close>

definition row_score :: "engine \<Rightarrow> real \<Rightarrow> KnowledgeRow \<Rightarrow> pg_error + real" where
  "row_score eng now r =
     retention_score eng now (confidence r) (access_count r) (last_accessed r)
       (memory_type r) (tags r) (created_at r)"

section \<open>Entry store: save, access recording, delete\<close>

text \<open>
  \<open>saveKnowledge\<close> issues two statements: the SELECT of the duplicate check, and then
  either the UPDATE of the row found or the INSERT of a new one. A SELECT with LIMIT 1
  and no ORDER BY returns whichever matching row the engine meets first; the choice is
  the parameter \<open>pick\<close>. The statements raise for a string that holds NUL and the write
  raises for a confidence that REAL cannot hold, both before the statement runs. The
  INSERT raises when the sequence has passed the largest INT, and when the topic, the
  source or a tag does not fit its index entry; the id it drew from the sequence is then
  lost. The UPDATE raises when a tag does not fit. The limit of the search vector that a
  trigger fills is a megabyte, beyond what a request body of the routes or the schema of
  the tool admits, and is not modelled.
\<close>

definition save_select ::
  "nat \<Rightarrow> jstring \<Rightarrow> jstring \<Rightarrow> jstring \<Rightarrow> store \<Rightarrow> pg_error + int option" where
  "save_select pick p_topic p_source p_content s =
     (if \<not> (text_ok p_topic \<and> text_ok p_source \<and> text_ok p_content)
      then Inl CharacterNotInRepertoire
      else
        (let found = filter (\<lambda>r. topic r = p_topic \<and> source r = p_source \<and>
                                  content r = p_content) (rows s)
         in if found = [] then Inr None
            else Inr (Some (id_row (found ! (pick mod length found))))))"

definition save_write ::
  "engine \<Rightarrow> real \<Rightarrow> jstring \<Rightarrow> jstring \<Rightarrow> jstring \<Rightarrow> jstring list \<Rightarrow> real \<Rightarrow> jstring
     \<Rightarrow> MemoryType \<Rightarrow> int option \<Rightarrow> store \<Rightarrow> (pg_error + int) \<times> store" where
  "save_write eng now p_topic p_content p_source p_tags p_confidence userId resolvedType
     existing s =
     (if \<not> (text_ok p_topic \<and> text_ok p_content \<and> text_ok p_source \<and> text_ok userId \<and>
             list_all text_ok p_tags)
      then (Inl CharacterNotInRepertoire, s)
      else
        (case cast_real eng p_confidence of
           Inl e \<Rightarrow> (Inl e, s)
         | Inr stored_confidence \<Rightarrow>
             (case existing of
                Some i \<Rightarrow>
                  (if \<not> list_all (index_fits eng) p_tags then (Inl ProgramLimitExceeded, s)
                   else
                     (Inr i,
                      s\<lparr>rows := map (\<lambda>r. if id_row r = i
                                         then r\<lparr>content := p_content, tags := p_tags,
                                                confidence := stored_confidence,
                                                user_id := userId, memory_type := resolvedType,
                                                updated_at := now\<rparr>
                                         else r) (rows s)\<rparr>))
              | None \<Rightarrow>
                  (if INT_MAX < next_id s then (Inl SequenceLimitExceeded, s)
                   else if \<not> (index_fits eng p_topic \<and> index_fits eng p_source \<and>
                                list_all (index_fits eng) p_tags)
                   then (Inl ProgramLimitExceeded, s\<lparr>next_id := next_id s + 1\<rparr>)
                   else
                     (Inr (next_id s),
                      s\<lparr>rows := rows s @
                             [\<lparr>id_row = next_id s, topic = p_topic, content = p_content,
                               source = p_source, user_id = userId, tags = p_tags,
                               confidence = stored_confidence, access_count = 0,
                               last_accessed = None, memory_type = resolvedType,
                               created_at = now, updated_at = now\<rparr>],
                         next_id := next_id s + 1\<rparr>)))))"

text \<open>What \<open>saveKnowledge\<close> does once the SELECT has answered.\<close>

definition save_after_select ::
  "engine \<Rightarrow> real \<Rightarrow> jstring \<Rightarrow> jstring \<Rightarrow> jstring \<Rightarrow> jstring list \<Rightarrow> real \<Rightarrow> jstring
     \<Rightarrow> MemoryType \<Rightarrow> pg_error + int option \<Rightarrow> store \<Rightarrow> (pg_error + int) \<times> store" where
  "save_after_select eng now p_topic p_content p_source p_tags p_confidence userId resolvedType
     selected s =
     (case selected of
        Inl e \<Rightarrow> (Inl e, s)
      | Inr existing \<Rightarrow>
          save_write eng now p_topic p_content p_source p_tags p_confidence userId
            resolvedType existing s)"

definition saveKnowledge ::
  "engine \<Rightarrow> nat \<Rightarrow> real \<Rightarrow> jstring \<Rightarrow> jstring \<Rightarrow> jstring \<Rightarrow> jstring list \<Rightarrow> real \<Rightarrow> jstring
     \<Rightarrow> MemoryType option \<Rightarrow> store \<Rightarrow> (pg_error + int) \<times> store" where
  "saveKnowledge eng pick now p_topic p_content p_source p_tags p_confidence userId memoryType s =
     (let resolvedType = (case memoryType of Some m \<Rightarrow> m
                          | None \<Rightarrow> classifyMemoryType p_topic p_tags)
      in save_after_select eng now p_topic p_content p_source p_tags p_confidence userId
           resolvedType (save_select pick p_topic p_source p_content s) s)"

text \<open>
  \<open>recordAccess\<close> is one UPDATE; it fails as a whole when a counter is at the largest
  INT, and the caller discards the failure.
\<close>

definition recordAccess :: "real \<Rightarrow> int list \<Rightarrow> store \<Rightarrow> store" where
  "recordAccess now ids s =
     (if ids = [] then s
      else if list_ex (\<lambda>r. id_row r \<in> set ids \<and> access_count r = INT_MAX) (rows s) then s
      else s\<lparr>rows := map (\<lambda>r. if id_row r \<in> set ids
                                then r\<lparr>access_count := access_count r + 1,
                                       last_accessed := Some now\<rparr>
                                else r) (rows s)\<rparr>)"

text \<open>
  \<open>SELECT * FROM tc_memory.knowledge WHERE id = $1\<close>, read as \<open>rows[0]\<close>. A parameter outside
  the type INT of the column is refused.
\<close>

definition select_by_id :: "int \<Rightarrow> store \<Rightarrow> pg_error + KnowledgeRow option" where
  "select_by_id i s =
     (if int4 i then Inr (find (\<lambda>r. id_row r = i) (rows s)) else Inl NumericValueOutOfRange)"

definition deleteKnowledge :: "int \<Rightarrow> store \<Rightarrow> (pg_error + bool) \<times> store" where
  "deleteKnowledge i s =
     (if int4 i
      then (Inr (list_ex (\<lambda>r. id_row r = i) (rows s)),
            s\<lparr>rows := filter (\<lambda>r. id_row r \<noteq> i) (rows s)\<rparr>)
      else (Inl NumericValueOutOfRange, s))"

section \<open>Merge engine\<close>

text \<open>\<open>[...new Set(xs)]\<close>: the elements of \<open>xs\<close> in order of first occurrence.\<close>

fun set_spread :: "'a list \<Rightarrow> 'a list \<Rightarrow> 'a list" where
  "set_spread seen [] = seen"
| "set_spread seen (x # xs) = set_spread (if x \<in> set seen then seen else seen @ [x]) xs"

text \<open>
  The statements between BEGIN and COMMIT run as one transaction. The early exit rolls
  back and returns false; an error raised by a statement is caught, the transaction is
  rolled back and the error is thrown again. Either way the table is left as it was. The
  UPDATE raises when the summed counter is outside INT or the merged content holds NUL.
  The confidence written is one of the two stored REAL values.
\<close>

definition mergeKnowledge ::
  "real \<Rightarrow> int \<Rightarrow> int \<Rightarrow> jstring option \<Rightarrow> store \<Rightarrow> (pg_error + bool) \<times> store" where
  "mergeKnowledge now keepId deleteId mergedContent s =
     (case select_by_id keepId s of
        Inl e \<Rightarrow> (Inl e, s)
      | Inr keepRow \<Rightarrow>
          (case select_by_id deleteId s of
             Inl e \<Rightarrow> (Inl e, s)
           | Inr deleteRow \<Rightarrow>
               (case (keepRow, deleteRow) of
                  (Some keep, Some del) \<Rightarrow>
                    (let combinedTags = set_spread [] (tags keep @ tags del);
                         combinedAccess = access_count keep + access_count del;
                         higherConfidence = max (confidence keep) (confidence del);
                         new_content = (case mergedContent of Some c \<Rightarrow> c
                                        | None \<Rightarrow> content keep);
                         updated = map (\<lambda>r. if id_row r = keepId
                                             then r\<lparr>content := new_content, tags := combinedTags,
                                                    access_count := combinedAccess,
                                                    confidence := higherConfidence,
                                                    updated_at := now\<rparr>
                                             else r) (rows s)
                     in if (case mergedContent of Some c \<Rightarrow> \<not> text_ok c | None \<Rightarrow> False)
                        then (Inl CharacterNotInRepertoire, s)
                        else if \<not> int4 combinedAccess then (Inl NumericValueOutOfRange, s)
                        else (Inr True, s\<lparr>rows := filter (\<lambda>r. id_row r \<noteq> deleteId) updated\<rparr>))
                | _ \<Rightarrow> (Inr False, s))))"

section \<open>Pruning sweeper\<close>

record prune_entry =
  pe_id :: int
  pe_topic :: jstring
  pe_source :: jstring
  pe_score :: real

record PruneResult =
  deleted :: "prune_entry list"
  flagged :: "prune_entry list"

text \<open>
  The candidate query scores the rows that are neither core nor protected and fails when
  the scoring of one of them raises. Were the engine to call the function on a core or
  protected row before it discards the row, the call would return at the first or second
  statement of the function. A REAL value is below the double precision 0.1 or 0.3
  exactly when it is below that number, and so is the number the driver parses from its
  shortest decimal form. The order of the candidates with equal scores is the engine's
  choice; the theorems below speak of the set of candidates.
\<close>

definition prune_candidates :: "engine \<Rightarrow> real \<Rightarrow> store \<Rightarrow> pg_error + prune_entry list" where
  "prune_candidates eng now s =
     bind_err
       (map_err (\<lambda>r. bind_err (row_score eng now r)
                        (\<lambda>sc. Inr \<lparr>pe_id = id_row r, pe_topic = topic r, pe_source = source r,
                                    pe_score = sc\<rparr>))
          (filter (\<lambda>r. memory_type r \<noteq> Core \<and> ''protected'' \<notin> set (tags r)) (rows s)))
       (\<lambda>scored. Inr (sort_key pe_score (filter (\<lambda>e. pe_score e < 0.3) scored)))"

definition pruneStaleEntries ::
  "engine \<Rightarrow> real \<Rightarrow> bool \<Rightarrow> store \<Rightarrow> (pg_error + PruneResult) \<times> store" where
  "pruneStaleEntries eng now dryRun s =
     (case prune_candidates eng now s of
        Inl e \<Rightarrow> (Inl e, s)
      | Inr candidates \<Rightarrow>
          (let toDelete = filter (\<lambda>r. pe_score r < 0.1) candidates;
               toFlag = filter (\<lambda>r. 0.1 \<le> pe_score r \<and> pe_score r < 0.3) candidates
           in (Inr \<lparr>deleted = toDelete, flagged = toFlag\<rparr>,
               if \<not> dryRun \<and> toDelete \<noteq> []
               then s\<lparr>rows := filter (\<lambda>r. id_row r \<notin> set (map pe_id toDelete)) (rows s)\<rparr>
               else s)))"

section \<open>Search engine: the fallback tier\<close>

text \<open>The class \<open>\s\<close> of a JavaScript regular expression, on code units below 256.\<close>

definition is_space :: "char \<Rightarrow> bool" where
  "is_space c = ((of_char c :: nat) \<in> {9, 10, 11, 12, 13, 32, 160})"

text \<open>The character class of the fallback's split, whitespace and \<open>- _ , ; .\<close>\<close>

definition is_separator :: "char \<Rightarrow> bool" where
  "is_separator c =
     (is_space c \<or> c = CHR ''-'' \<or> c = CHR ''_'' \<or> c = CHR '','' \<or> c = CHR '';'' \<or> c = CHR ''.'')"

text \<open>
  \<open>String.prototype.split\<close> on a regular expression \<open>[...]+\<close>: the pieces between the maximal
  runs of separator characters, an empty piece before a leading and after a trailing run.
  The flag says whether the previous character was a separator.
\<close>

fun split_runs :: "(char \<Rightarrow> bool) \<Rightarrow> bool \<Rightarrow> jstring \<Rightarrow> jstring \<Rightarrow> jstring list" where
  "split_runs sep in_run cur [] = [rev cur]"
| "split_runs sep in_run cur (c # cs) =
     (if sep c
      then (if in_run then split_runs sep True cur cs
            else rev cur # split_runs sep True [] cs)
      else split_runs sep False (c # cur) cs)"

definition js_split :: "(char \<Rightarrow> bool) \<Rightarrow> jstring \<Rightarrow> jstring list" where
  "js_split sep s = split_runs sep False [] s"

definition js_trim :: "jstring \<Rightarrow> jstring" where
  "js_trim s = rev (dropWhile is_space (rev (dropWhile is_space s)))"

text \<open>
  The LIKE operator of the storage engine: \<open>%\<close> stands for any sequence, \<open>_\<close> for any one
  character, and a backslash takes the next pattern character literally. A pattern ending
  in a lone backslash matches nothing. ILIKE compares without regard to case.
\<close>

fun like_match :: "jstring \<Rightarrow> jstring \<Rightarrow> bool" where
  "like_match [] s = (s = [])"
| "like_match (p # ps) [] = (p = CHR ''%'' \<and> like_match ps [])"
| "like_match (p # ps) (c # cs) =
     (if p = CHR ''%'' then like_match ps (c # cs) \<or> like_match (p # ps) cs
      else if p = CHR ''_'' then like_match ps cs
      else if p = CHR 0x5C then (case ps of [] \<Rightarrow> False | q # qs \<Rightarrow> q = c \<and> like_match qs cs)
      else p = c \<and> like_match ps cs)"

definition ilike :: "jstring \<Rightarrow> jstring \<Rightarrow> bool" where
  "ilike text pattern = like_match (toLowerCase pattern) (toLowerCase text)"

type_synonym ranked_row = "KnowledgeRow \<times> real"

text \<open>
  The fallback query. Its WHERE clause is
  \<open>k.topic ILIKE ANY($1) OR k.content ILIKE ANY($1)\<close>, to which the source and tag
  conditions are appended with AND; AND binds tighter than OR.
\<close>

definition source_matches :: "jstring option \<Rightarrow> KnowledgeRow \<Rightarrow> bool" where
  "source_matches p_source k =
     (case p_source of None \<Rightarrow> True
      | Some src \<Rightarrow> if src = [] then True else source k = src)"

definition tags_match :: "jstring list option \<Rightarrow> KnowledgeRow \<Rightarrow> bool" where
  "tags_match p_tags k =
     (case p_tags of None \<Rightarrow> True
      | Some ts \<Rightarrow> if ts = [] then True else list_ex (\<lambda>t. t \<in> set ts) (tags k))"

definition fuzzy_where ::
  "jstring list \<Rightarrow> jstring option \<Rightarrow> jstring list option \<Rightarrow> KnowledgeRow \<Rightarrow> bool" where
  "fuzzy_where patterns p_source p_tags k =
     (list_ex (ilike (topic k)) patterns \<or>
      (list_ex (ilike (content k)) patterns \<and> source_matches p_source k \<and> tags_match p_tags k))"

definition fuzzy_rank :: "jstring list \<Rightarrow> KnowledgeRow \<Rightarrow> real" where
  "fuzzy_rank patterns k =
     real (length (filter (\<lambda>p. ilike (topic k) p \<or> ilike (content k) p) patterns))
       / real (length patterns)"

text \<open>
  \<open>searchKnowledge\<close>, given the rows that the primary full-text query returned. The result is
  the rows returned to the caller and the ids handed to \<open>recordAccess\<close>. ORDER BY sorts
  stably here, and the LIMIT parameter has served the primary query before.
\<close>

definition searchKnowledge ::
  "ranked_row list \<Rightarrow> jstring \<Rightarrow> jstring option \<Rightarrow> jstring list option \<Rightarrow> nat \<Rightarrow> store
     \<Rightarrow> ranked_row list \<times> int list" where
  "searchKnowledge primary query p_source p_tags limit s =
     (if primary = [] \<and> 2 \<le> length (js_trim query)
      then
        (let words = filter (\<lambda>w. 3 \<le> length w) (js_split is_separator query)
         in if words = [] then ([], [])
            else
              (let patterns = map (\<lambda>w. ''%'' @ w @ ''%'') words;
                   fuzzy = take (min limit 50)
                             (sort_key (\<lambda>kr. - snd kr)
                                (map (\<lambda>k. (k, fuzzy_rank patterns k))
                                   (filter (fuzzy_where patterns p_source p_tags) (rows s))))
               in (fuzzy, map (\<lambda>kr. id_row (fst kr)) fuzzy)))
      else (primary, map (\<lambda>kr. id_row (fst kr)) primary))"

section \<open>Entry points of save\<close>

text \<open>The JSON body of a save request; a field that is absent is \<open>None\<close>.\<close>

record save_request =
  rq_topic :: "jstring option"
  rq_content :: "jstring option"
  rq_source :: "jstring option"
  rq_tags :: "jstring list option"
  rq_confidence :: "real option"
  rq_user :: "jstring option"
  rq_memory_type :: "MemoryType option"

text \<open>
  The answers of the two entry points: the id saved, the answer 400 of the route for
  missing fields, the refusal of arguments that fail the schema of the tool, and the
  answer to an error raised by the store.
\<close>

datatype save_response = Saved int | MissingFields | InvalidArguments | StoreFailure pg_error

definition VALID_SOURCES :: "jstring list" where
  "VALID_SOURCES =
     [''website'', ''godot-pay'', ''godot-tablet'', ''godot-mgmt'',
      ''gas'', ''devops'', ''stripe'', ''infrastructure'', ''unknown'']"

text \<open>The negation \<open>!x\<close> of a string field: absent or empty.\<close>

definition falsy :: "jstring option \<Rightarrow> bool" where
  "falsy x = (case x of None \<Rightarrow> True | Some v \<Rightarrow> v = [])"

definition save_handler ::
  "engine \<Rightarrow> nat \<Rightarrow> real \<Rightarrow> jstring \<Rightarrow> jstring \<Rightarrow> jstring \<Rightarrow> save_request \<Rightarrow> store
     \<Rightarrow> save_response \<times> store" where
  "save_handler eng pick now p_topic p_content p_source rq s =
     (let res = saveKnowledge eng pick now p_topic p_content p_source
                  (case rq_tags rq of Some ts \<Rightarrow> ts | None \<Rightarrow> [])
                  (case rq_confidence rq of Some c \<Rightarrow> c | None \<Rightarrow> 1.0)
                  (case rq_user rq of Some u \<Rightarrow> u | None \<Rightarrow> ''unknown'')
                  (rq_memory_type rq) s
      in (case fst res of Inr i \<Rightarrow> Saved i | Inl e \<Rightarrow> StoreFailure e, snd res))"

text \<open>The route \<open>POST /api/save\<close>.\<close>

definition api_save :: "engine \<Rightarrow> nat \<Rightarrow> real \<Rightarrow> save_request \<Rightarrow> store \<Rightarrow> save_response \<times> store" where
  "api_save eng pick now rq s =
     (if falsy (rq_topic rq) \<or> falsy (rq_content rq) \<or> falsy (rq_source rq)
      then (MissingFields, s)
      else (case (rq_topic rq, rq_content rq, rq_source rq) of
              (Some t, Some c, Some src) \<Rightarrow> save_handler eng pick now t c src rq s
            | _ \<Rightarrow> (MissingFields, s)))"

text \<open>
  The tool \<open>save_knowledge\<close>: the server checks the arguments against \<open>inputSchema\<close> and
  calls the handler with arguments that passed.
\<close>

definition inputSchema :: "save_request \<Rightarrow> bool" where
  "inputSchema rq =
     ((case rq_topic rq of None \<Rightarrow> False | Some t \<Rightarrow> 1 \<le> length t \<and> length t \<le> 100) \<and>
      (case rq_content rq of None \<Rightarrow> False | Some c \<Rightarrow> 1 \<le> length c \<and> length c \<le> 2000) \<and>
      (case rq_source rq of None \<Rightarrow> False | Some src \<Rightarrow> src \<in> set VALID_SOURCES) \<and>
      (case rq_tags rq of None \<Rightarrow> True | Some ts \<Rightarrow> length ts \<le> 10) \<and>
      (case rq_confidence rq of None \<Rightarrow> True | Some c \<Rightarrow> 0 \<le> c \<and> c \<le> 1) \<and>
      (case rq_user rq of None \<Rightarrow> True | Some u \<Rightarrow> length u \<le> 50))"

definition saveKnowledgeTool ::
  "engine \<Rightarrow> nat \<Rightarrow> real \<Rightarrow> save_request \<Rightarrow> store \<Rightarrow> save_response \<times> store" where
  "saveKnowledgeTool eng pick now rq s =
     (if inputSchema rq
      then (case (rq_topic rq, rq_content rq, rq_source rq) of
              (Some t, Some c, Some src) \<Rightarrow> save_handler eng pick now t c src rq s
            | _ \<Rightarrow> (InvalidArguments, s))
      else (InvalidArguments, s))"

section \<open>Well-formed stores\<close>

text \<open>
  The primary key and its sequence: ids are unique values of the type INT, and the sequence,
  which starts at 1, is ahead of every id in use.
\<close>

definition wf_store :: "store \<Rightarrow> bool" where
  "wf_store s =
     (distinct (map id_row (rows s)) \<and>
      list_all (\<lambda>i. int4 i \<and> i < next_id s) (map id_row (rows s)) \<and>
      1 \<le> next_id s)"

definition empty_store :: store where
  "empty_store = \<lparr>rows = [], next_id = 1\<rparr>"

section \<open>The specification's formulas\<close>


definition clamp :: "real \<Rightarrow> real \<Rightarrow> real \<Rightarrow> real" where
  "clamp x lo hi = max lo (min hi x)"

definition score_spec ::
  "real \<Rightarrow> real \<Rightarrow> int \<Rightarrow> real option \<Rightarrow> MemoryType \<Rightarrow> jstring list \<Rightarrow> real \<Rightarrow> real" where
  "score_spec now conf accessCount lastAccessed memoryType tgs createdAt =
     (if ''protected'' \<in> set tgs then 1
      else if memoryType = Core then max conf 0.9
      else
        (let decayRate = (if memoryType = Architecture then 0.001
                          else if memoryType = Pattern then 0.005 else 0.01);
             daysSinceCreated = (now - createdAt) / 86400;
             daysSinceAccess = (case lastAccessed of None \<Rightarrow> daysSinceCreated
                                | Some a \<Rightarrow> (now - a) / 86400)
         in clamp (0.4 * conf * exp (- decayRate * daysSinceCreated)
                   + 0.3 * min (ln (real_of_int accessCount + 1) / ln 50) 1
                   + 0.3 * max (1 - daysSinceAccess / 180) 0) 0 1))"

text \<open>The retention score of an entry, by the formula of the specification.\<close>

definition entry_score :: "real \<Rightarrow> KnowledgeRow \<Rightarrow> real" where
  "entry_score now r =
     score_spec now (confidence r) (access_count r) (last_accessed r) (memory_type r)
       (tags r) (created_at r)"

text \<open>
  The candidate sets of the sweep for a score \<open>sc\<close> of the entries: immune entries are
  core or protected, deletion candidates score below 0.1, flag candidates from 0.1 to
  below 0.3.
\<close>

definition immune :: "KnowledgeRow \<Rightarrow> bool" where
  "immune r = (memory_type r = Core \<or> ''protected'' \<in> set (tags r))"

definition deletion_candidate :: "(KnowledgeRow \<Rightarrow> real) \<Rightarrow> KnowledgeRow \<Rightarrow> bool" where
  "deletion_candidate sc r = (\<not> immune r \<and> sc r < 0.1)"

definition flag_candidate :: "(KnowledgeRow \<Rightarrow> real) \<Rightarrow> KnowledgeRow \<Rightarrow> bool" where
  "flag_candidate sc r = (\<not> immune r \<and> 0.1 \<le> sc r \<and> sc r < 0.3)"


text \<open>
  The score \<open>sc\<close> is the one the scoring function returns, in the engine \<open>eng\<close> at the time
  \<open>now\<close>, for every entry of the table that is not immune.
\<close>

definition scored_by :: "engine \<Rightarrow> real \<Rightarrow> (KnowledgeRow \<Rightarrow> real) \<Rightarrow> store \<Rightarrow> bool" where
  "scored_by eng now sc s = list_all (\<lambda>r. immune r \<or> row_score eng now r = Inr (sc r)) (rows s)"

text \<open>The ids of the entries that a sweep returned as deleted and as flagged.\<close>

definition result_ids :: "pg_error + PruneResult \<Rightarrow> (int set \<times> int set) option" where
  "result_ids res =
     (case res of Inl e \<Rightarrow> None
      | Inr p \<Rightarrow> Some (set (map pe_id (deleted p)), set (map pe_id (flagged p))))"

section \<open>Example stores\<close>

text \<open>Concrete tables on which the theorems below are evaluated.\<close>

definition example_row :: KnowledgeRow where
  "example_row =
     \<lparr>id_row = 1, topic = ''pricing-rules'', content = ''Weekend rate applies on Saturday'',
      source = ''website'', user_id = ''unknown'', tags = [''billing''], confidence = 1 / 2,
      access_count = 3, last_accessed = None, memory_type = Architecture,
      created_at = 0, updated_at = 0\<rparr>"

definition second_row :: KnowledgeRow where
  "second_row =
     \<lparr>id_row = 2, topic = ''pricing rules'', content = ''Weekend rate applies on Saturdays'',
      source = ''stripe'', user_id = ''cpg'', tags = [''billing'', ''stripe''], confidence = 9 / 10,
      access_count = 4, last_accessed = None, memory_type = Pattern,
      created_at = 0, updated_at = 0\<rparr>"

definition single_row_store :: store where
  "single_row_store = \<lparr>rows = [example_row], next_id = 2\<rparr>"

definition two_row_store :: store where
  "two_row_store = \<lparr>rows = [example_row, second_row], next_id = 3\<rparr>"

text \<open>The two rows again, the second with its counter at the largest INT.\<close>

definition saturated_store :: store where
  "saturated_store =
     \<lparr>rows = [example_row, second_row\<lparr>access_count := 2147483647\<rparr>], next_id = 3\<rparr>"

text \<open>
  Rows seen at day 200: a pattern never accessed and of confidence 0, the same accessed at
  day 110, a core row and a protected row.
\<close>

definition aged_row :: "int \<Rightarrow> real option \<Rightarrow> MemoryType \<Rightarrow> jstring list \<Rightarrow> KnowledgeRow" where
  "aged_row i accessed mt tgs =
     \<lparr>id_row = i, topic = ''notes'', content = ''old'', source = ''gas'', user_id = ''unknown'',
      tags = tgs, confidence = 0, access_count = 0, last_accessed = accessed,
      memory_type = mt, created_at = 0, updated_at = 0\<rparr>"

definition day :: "real \<Rightarrow> real" where
  "day n = n * 86400"

definition aged_store :: store where
  "aged_store =
     \<lparr>rows = [aged_row 1 None Pattern [], aged_row 2 (Some (day 110)) Pattern [],
              aged_row 3 None Core [], aged_row 4 None Pattern [''protected'']],
      next_id = 5\<rparr>"

text \<open>The stale pattern row beside a pattern row whose counter is at the largest INT.\<close>

definition aged_saturated_store :: store where
  "aged_saturated_store =
     \<lparr>rows = [aged_row 1 None Pattern [],
              (aged_row 2 None Pattern [])\<lparr>access_count := 2147483647\<rparr>],
      next_id = 3\<rparr>"





text \<open>A save request with a source outside the enumeration and a confidence of 5.\<close>

definition bad_request :: save_request where
  "bad_request =
     \<lparr>rq_topic = Some ''t'', rq_content = Some ''c'', rq_source = Some ''bogus'',
      rq_tags = None, rq_confidence = Some 5, rq_user = None, rq_memory_type = None\<rparr>"

section \<open>Facts about raised errors\<close>

lemma bind_err_Inr [simp]: "bind_err (Inr v) f = f v"
  by (simp add: bind_err_def)

lemma bind_err_Inl [simp]: "bind_err (Inl e) f = Inl e"
  by (simp add: bind_err_def)

lemma bind_err_eq_Inr: "bind_err m f = Inr v \<longleftrightarrow> (\<exists>a. m = Inr a \<and> f a = Inr v)"
  by (cases m) simp_all

lemma map_err_Inr:
  "list_all (\<lambda>x. f x = Inr (g x)) xs \<Longrightarrow> map_err f xs = Inr (map g xs)"
  by (induction xs) simp_all

lemma map_err_Inl:
  "list_ex (\<lambda>x. isl (f x)) xs \<Longrightarrow> isl (map_err f xs)"
proof (induction xs)
  case Nil
  then show ?case by simp
next
  case (Cons x xs)
  show ?case
  proof (cases "f x")
    case (Inl e)
    then show ?thesis by simp
  next
    case (Inr y)
    with Cons have "isl (map_err f xs)" by simp
    then obtain e where "map_err f xs = Inl e" by (cases "map_err f xs") simp_all
    with Inr show ?thesis by simp
  qed
qed

lemma exact_engine_within_unit: "cast_within_unit exact_engine"
  by (simp add: cast_within_unit_def exact_engine_def)

section \<open>Properties of the retention scorer\<close>

lemma retention_score_exact:
  assumes "''protected'' \<in> set tgs \<or> mt = Core \<or> (0 \<le> n \<and> n < INT_MAX)"
  shows "retention_score exact_engine now c n la mt tgs cr = Inr (score_spec now c n la mt tgs cr)"
proof (cases "''protected'' \<in> set tgs \<or> mt = Core")
  case True
  then show ?thesis
    by (auto simp add: retention_score_def score_spec_def exact_engine_def)
next
  case False
  define d :: real where
    "d = (case mt of Architecture \<Rightarrow> 0.001 | Pattern \<Rightarrow> 0.005 | Decision \<Rightarrow> 0.01 | Core \<Rightarrow> 0.005)"
  define x where "x = (now - cr) / 86400"
  define y where "y = (now - (case la of Some a \<Rightarrow> a | None \<Rightarrow> cr)) / 86400"
  define f where "f = min (ln (real_of_int n + 1) / ln 50) 1"
  from False assms have n: "0 \<le> n" "n < INT_MAX" by auto
  then have i: "int4pl n 1 = Inr (n + 1)"
    by (simp add: int4pl_def int4_def INT_MAX_def)
  have l: "pg_ln (real_of_int (n + 1)) = Inr (ln (real_of_int n + 1))"
    using n by (simp add: pg_ln_def)
  have code: "retention_score exact_engine now c n la mt tgs cr =
      Inr (max (min (c * exp (- d * x) * 0.4 + f * 0.3 + max (1 - y / 180) 0 * 0.3) 1) 0)"
    using False unfolding retention_score_def d_def [symmetric] x_def [symmetric]
      y_def [symmetric]
    by (simp add: exact_engine_def i l f_def del: of_int_add)
  have d_if: "(if mt = Architecture then 0.001 else if mt = Pattern then 0.005 else 0.01) = d"
    using False by (cases mt) (simp_all add: d_def)
  have y_case: "(case la of None \<Rightarrow> x | Some a \<Rightarrow> (now - a) / 86400) = y"
    by (cases la) (simp_all add: x_def y_def)
  have spec: "score_spec now c n la mt tgs cr =
      clamp (0.4 * c * exp (- d * x) + 0.3 * f + 0.3 * max (1 - y / 180) 0) 0 1"
    using False unfolding score_spec_def Let_def x_def [symmetric] d_if y_case
    by (simp add: f_def)
  have "max (min (c * exp (- d * x) * 0.4 + f * 0.3 + max (1 - y / 180) 0 * 0.3) 1) 0 =
        clamp (0.4 * c * exp (- d * x) + 0.3 * f + 0.3 * max (1 - y / 180) 0) 0 1"
    by (simp add: clamp_def max.commute min.commute mult.commute mult.left_commute)
  with code spec show ?thesis by simp
qed

lemma score_spec_bounds:
  "c \<le> 1 \<Longrightarrow> 0 \<le> score_spec now c n la mt tgs cr \<and> score_spec now c n la mt tgs cr \<le> 1"
  by (auto simp add: score_spec_def clamp_def Let_def le_max_iff_disj)

lemma retention_score_within_unit:
  assumes "cast_within_unit eng" and "0 \<le> c" and "c \<le> 1"
    and "retention_score eng now c n la mt tgs cr = Inr v"
  shows "0 \<le> v \<and> v \<le> 1"
proof -
  have u: "0 \<le> w \<and> w \<le> 1" if "cast_real eng x = Inr w" "0 \<le> x" "x \<le> 1" for x w
    using assms(1) that unfolding cast_within_unit_def by blast
  show ?thesis
  proof (cases "''protected'' \<in> set tgs")
    case True
    with assms(4) have "cast_real eng 1 = Inr v"
      by (simp add: retention_score_def)
    then show ?thesis by (rule u) simp_all
  next
    case np: False
    show ?thesis
    proof (cases "mt = Core")
      case True
      with np assms(4) have "cast_real eng (max c (9 / 10)) = Inr v"
        by (simp add: retention_score_def)
      then show ?thesis
        by (rule u) (use assms(2,3) in \<open>simp_all add: le_max_iff_disj\<close>)
    next
      case False
      with np assms(4) obtain score where "cast_real eng (max (min score 1) 0) = Inr v"
        by (auto simp add: retention_score_def bind_err_eq_Inr)
      then show ?thesis
        by (rule u) simp_all
    qed
  qed
qed

text \<open>
  Claim C1, amended. Take a confidence in the unit interval and an entry that is protected
  or core or has an access count from 0 to below the largest INT. With the exact engine
  the scoring function returns, and what it returns is the score of the specification: 1
  for a protected entry, else the larger of the confidence and 0.9 for a core entry, else
  the weighted sum of decayed confidence, access frequency and recency, clamped to the
  unit interval, with the decay rate of the memory type and the days since creation
  standing for the days since access of an entry never accessed. That score lies in the
  unit interval. With any engine whose conversion to REAL maps the unit interval into
  itself, what the function returns, for any access count, lies in the unit interval.
\<close>

theorem retention_score_formula:
  assumes "0 \<le> c" and "c \<le> 1"
    and "''protected'' \<in> set tgs \<or> mt = Core \<or> (0 \<le> n \<and> n < 2147483647)"
  shows "retention_score exact_engine now c n la mt tgs cr
           = Inr (score_spec now c n la mt tgs cr) \<and>
         0 \<le> score_spec now c n la mt tgs cr \<and> score_spec now c n la mt tgs cr \<le> 1 \<and>
         (cast_within_unit eng \<and> retention_score eng now c m la mt tgs cr = Inr v
            \<longrightarrow> 0 \<le> v \<and> v \<le> 1)"
proof (intro conjI impI)
  show "retention_score exact_engine now c n la mt tgs cr = Inr (score_spec now c n la mt tgs cr)"
    by (rule retention_score_exact) (use assms(3) in \<open>simp add: INT_MAX_def\<close>)
  show "0 \<le> score_spec now c n la mt tgs cr" "score_spec now c n la mt tgs cr \<le> 1"
    using score_spec_bounds [OF assms(2)] by simp_all
  show "0 \<le> v" "v \<le> 1"
    if "cast_within_unit eng \<and> retention_score eng now c m la mt tgs cr = Inr v"
    using retention_score_within_unit [OF _ assms(1,2), of eng now m la mt tgs cr v] that
    by simp_all
qed

theorem retention_score_formula_witness:
  "(0::real) \<le> 1 / 2 \<and> (1 / 2::real) \<le> 1 \<and> (0::int) \<le> 0 \<and> (0::int) < 2147483647 \<and>
   cast_within_unit exact_engine \<and>
   retention_score exact_engine 0 (1 / 2) 0 None Pattern [] 0 = Inr (1 / 2) \<and>
   score_spec 0 (1 / 2) 0 None Pattern [] 0 = 1 / 2"
proof -
  have a: "(0::real) \<le> 1 / 2" and b: "(1 / 2::real) \<le> 1"
    by simp_all
  have n: "''protected'' \<in> set [] \<or> Pattern = Core \<or> ((0::int) \<le> 0 \<and> (0::int) < 2147483647)"
    by simp
  have v: "score_spec 0 (1 / 2) 0 None Pattern [] 0 = 1 / 2"
    by (simp add: score_spec_def clamp_def)
  have "retention_score exact_engine 0 (1 / 2) 0 None Pattern [] 0
          = Inr (score_spec 0 (1 / 2) 0 None Pattern [] 0)"
    using retention_score_formula [OF a b n, of 0 None 0 exact_engine 0 0] by (elim conjE)
  then show ?thesis
    using v exact_engine_within_unit by simp
qed

text \<open>
  Claim C1 as stated fails for an access count that is the largest INT: the confidence is
  in the unit interval and the count is not negative, and the function raises at
  \<open>p_access_count + 1\<close> instead of returning a score.
\<close>

theorem retention_score_saturated_counterexample:
  "(0::real) \<le> 1 / 2 \<and> (1 / 2::real) \<le> 1 \<and> (0::int) \<le> 2147483647 \<and>
   retention_score exact_engine 0 (1 / 2) 2147483647 None Pattern [] 0
     = Inl NumericValueOutOfRange"
  by (simp add: retention_score_def exact_engine_def int4pl_def int4_def INT_MAX_def)

section \<open>Properties of the classifier\<close>









section \<open>Facts about lists of rows\<close>

lemma find_Some_holds: "find P xs = Some x \<Longrightarrow> P x"
  by (induction xs) (auto split: if_splits)

lemma find_Some_mem: "find P xs = Some x \<Longrightarrow> x \<in> set xs"
  by (induction xs) (auto split: if_splits)


lemma find_id_map:
  assumes "\<And>x. id_row (f x) = id_row x"
  shows "find (\<lambda>r. id_row r = i) (map f xs) = map_option f (find (\<lambda>r. id_row r = i) xs)"
  by (induction xs) (simp_all add: assms)

lemma find_filter_weaker:
  assumes "\<And>x. P x \<Longrightarrow> Q x"
  shows "find P (filter Q xs) = find P xs"
  using assms by (induction xs) auto

lemma find_filter_excluded:
  assumes "\<And>x. P x \<Longrightarrow> \<not> Q x"
  shows "find P (filter Q xs) = None"
  using assms by (induction xs) auto


lemma map_id_row_update:
  assumes "\<And>x. id_row (f x) = id_row x"
  shows "map (id_row \<circ> f) xs = map id_row xs"
  by (induction xs) (simp_all add: assms)

lemma id_in_image_distinct:
  assumes "distinct (map id_row xs)" and "r \<in> set xs"
  shows "id_row r \<in> id_row ` {x \<in> set xs. Q x} \<longleftrightarrow> Q r"
proof -
  have "inj_on id_row (set xs)"
    using assms(1) by (simp add: distinct_map)
  with assms(2) show ?thesis
    by (auto simp add: inj_on_def)
qed

section \<open>Properties of the merge engine\<close>

lemma set_set_spread: "set (set_spread seen xs) = set seen \<union> set xs"
  by (induction xs arbitrary: seen) auto

lemma distinct_set_spread: "distinct seen \<Longrightarrow> distinct (set_spread seen xs)"
  by (induction xs arbitrary: seen) auto





lemma select_by_id_wf:
  assumes "wf_store s" and "find (\<lambda>r. id_row r = i) (rows s) = Some r"
  shows "select_by_id i s = Inr (Some r)"
proof -
  have "r \<in> set (rows s)" "id_row r = i"
    using find_Some_mem [OF assms(2)] find_Some_holds [OF assms(2)] by simp_all
  then have "int4 i"
    using assms(1) by (auto simp add: wf_store_def list_all_iff)
  then show ?thesis
    using assms(2) by (simp add: select_by_id_def)
qed

lemma merge_outcome:
  assumes "wf_store s" and "find (\<lambda>r. id_row r = keepId) (rows s) = Some keep"
    and "find (\<lambda>r. id_row r = deleteId) (rows s) = Some del"
    and "int4 (access_count keep + access_count del)"
    and "case mergedContent of Some c \<Rightarrow> text_ok c | None \<Rightarrow> True"
  shows "mergeKnowledge now keepId deleteId mergedContent s =
     (Inr True,
      s\<lparr>rows := filter (\<lambda>r. id_row r \<noteq> deleteId)
         (map (\<lambda>r. if id_row r = keepId
                then r\<lparr>content := (case mergedContent of Some c \<Rightarrow> c | None \<Rightarrow> content keep),
                       tags := set_spread [] (tags keep @ tags del),
                       access_count := access_count keep + access_count del,
                       confidence := max (confidence keep) (confidence del),
                       updated_at := now\<rparr>
                else r) (rows s))\<rparr>)"
  using assms(4,5) select_by_id_wf [OF assms(1,2)] select_by_id_wf [OF assms(1,3)]
  by (simp add: mergeKnowledge_def Let_def split: option.splits)

lemma merge_keep_row:
  assumes "wf_store s" and "keepId \<noteq> deleteId"
    and "find (\<lambda>r. id_row r = keepId) (rows s) = Some keep"
    and "find (\<lambda>r. id_row r = deleteId) (rows s) = Some del"
    and "int4 (access_count keep + access_count del)"
    and "case mergedContent of Some c \<Rightarrow> text_ok c | None \<Rightarrow> True"
  shows "find (\<lambda>r. id_row r = keepId)
           (rows (snd (mergeKnowledge now keepId deleteId mergedContent s))) =
      Some (keep\<lparr>content := (case mergedContent of Some c \<Rightarrow> c | None \<Rightarrow> content keep),
                 tags := set_spread [] (tags keep @ tags del),
                 access_count := access_count keep + access_count del,
                 confidence := max (confidence keep) (confidence del),
                 updated_at := now\<rparr>)"
proof -
  let ?f = "\<lambda>r. if id_row r = keepId
                then r\<lparr>content := (case mergedContent of Some c \<Rightarrow> c | None \<Rightarrow> content keep),
                       tags := set_spread [] (tags keep @ tags del),
                       access_count := access_count keep + access_count del,
                       confidence := max (confidence keep) (confidence del),
                       updated_at := now\<rparr>
                else r"
  have idk: "id_row keep = keepId"
    using find_Some_holds [OF assms(3)] .
  have "find (\<lambda>r. id_row r = keepId) (filter (\<lambda>r. id_row r \<noteq> deleteId) (map ?f (rows s)))
        = find (\<lambda>r. id_row r = keepId) (map ?f (rows s))"
    by (rule find_filter_weaker) (use assms(2) in simp)
  also have "\<dots> = map_option ?f (find (\<lambda>r. id_row r = keepId) (rows s))"
    by (rule find_id_map) simp
  also have "\<dots> = Some (?f keep)"
    using assms(3) by simp
  finally have "find (\<lambda>r. id_row r = keepId)
       (filter (\<lambda>r. id_row r \<noteq> deleteId) (map ?f (rows s))) = Some (?f keep)" .
  then show ?thesis
    using idk by (simp add: merge_outcome [OF assms(1,3-6)])
qed

lemma merge_delete_row:
  assumes "wf_store s" and "find (\<lambda>r. id_row r = keepId) (rows s) = Some keep"
    and "find (\<lambda>r. id_row r = deleteId) (rows s) = Some del"
    and "int4 (access_count keep + access_count del)"
    and "case mergedContent of Some c \<Rightarrow> text_ok c | None \<Rightarrow> True"
  shows "list_all (\<lambda>r. id_row r \<noteq> deleteId)
           (rows (snd (mergeKnowledge now keepId deleteId mergedContent s)))"
  by (simp add: merge_outcome [OF assms] list_all_iff)

text \<open>
  Claim C3, amended. On a well-formed table, for two different ids that both have a row,
  when the sum of the two access counts is a value of the type INT and the merged
  content, if one is given, holds no NUL, merge returns true, and afterwards the row of the
  keep id is the former keep row with the merged content if one was given and its own
  content otherwise, with the tags of both rows, each once, with the sum of both access
  counts, the larger of both confidences and \<open>updated_at\<close> set to the time of the call;
  and no row has the delete id.
\<close>

theorem mergeKnowledge_combines:
  assumes "wf_store s" and "keepId \<noteq> deleteId"
    and "find (\<lambda>r. id_row r = keepId) (rows s) = Some keep"
    and "find (\<lambda>r. id_row r = deleteId) (rows s) = Some del"
    and "int4 (access_count keep + access_count del)"
    and "case mergedContent of Some c \<Rightarrow> text_ok c | None \<Rightarrow> True"
  shows "fst (mergeKnowledge now keepId deleteId mergedContent s) = Inr True \<and>
     find (\<lambda>r. id_row r = keepId)
       (rows (snd (mergeKnowledge now keepId deleteId mergedContent s))) =
       Some (keep\<lparr>content := (case mergedContent of Some c \<Rightarrow> c | None \<Rightarrow> content keep),
                  tags := set_spread [] (tags keep @ tags del),
                  access_count := access_count keep + access_count del,
                  confidence := max (confidence keep) (confidence del),
                  updated_at := now\<rparr>) \<and>
     set (set_spread [] (tags keep @ tags del)) = set (tags keep) \<union> set (tags del) \<and>
     distinct (set_spread [] (tags keep @ tags del)) \<and>
     list_all (\<lambda>r. id_row r \<noteq> deleteId)
       (rows (snd (mergeKnowledge now keepId deleteId mergedContent s)))"
proof (intro conjI)
  show "fst (mergeKnowledge now keepId deleteId mergedContent s) = Inr True"
    by (simp add: merge_outcome [OF assms(1,3-6)])
  show "find (\<lambda>r. id_row r = keepId)
       (rows (snd (mergeKnowledge now keepId deleteId mergedContent s))) =
       Some (keep\<lparr>content := (case mergedContent of Some c \<Rightarrow> c | None \<Rightarrow> content keep),
                  tags := set_spread [] (tags keep @ tags del),
                  access_count := access_count keep + access_count del,
                  confidence := max (confidence keep) (confidence del),
                  updated_at := now\<rparr>)"
    by (rule merge_keep_row [OF assms])
  show "set (set_spread [] (tags keep @ tags del)) = set (tags keep) \<union> set (tags del)"
    by (simp add: set_set_spread)
  show "distinct (set_spread [] (tags keep @ tags del))"
    by (simp add: distinct_set_spread)
  show "list_all (\<lambda>r. id_row r \<noteq> deleteId)
       (rows (snd (mergeKnowledge now keepId deleteId mergedContent s)))"
    by (rule merge_delete_row [OF assms(1,3-6)])
qed

theorem mergeKnowledge_combines_witness:
  "wf_store two_row_store \<and> (1::int) \<noteq> 2 \<and>
   find (\<lambda>r. id_row r = 1) (rows two_row_store) = Some example_row \<and>
   find (\<lambda>r. id_row r = 2) (rows two_row_store) = Some second_row \<and>
   int4 (access_count example_row + access_count second_row) \<and>
   (case Some ''Weekend rate'' of Some c \<Rightarrow> text_ok c | None \<Rightarrow> True) \<and>
   mergeKnowledge 7 1 2 (Some ''Weekend rate'') two_row_store =
     (Inr True,
      \<lparr>rows = [example_row\<lparr>content := ''Weekend rate'', tags := [''billing'', ''stripe''],
                           access_count := 7, confidence := 9 / 10, updated_at := 7\<rparr>],
       next_id = 3\<rparr>) \<and>
   list_all (\<lambda>r. id_row r \<noteq> 2)
     (rows (snd (mergeKnowledge 7 1 2 (Some ''Weekend rate'') two_row_store)))"
proof -
  have w: "wf_store two_row_store"
    by (simp add: wf_store_def two_row_store_def example_row_def second_row_def int4_def
        INT_MAX_def)
  have n: "(1::int) \<noteq> 2" by simp
  have k: "find (\<lambda>r. id_row r = 1) (rows two_row_store) = Some example_row"
    by (simp add: two_row_store_def example_row_def)
  have d: "find (\<lambda>r. id_row r = 2) (rows two_row_store) = Some second_row"
    by (simp add: two_row_store_def example_row_def second_row_def)
  have a: "int4 (access_count example_row + access_count second_row)"
    by (simp add: example_row_def second_row_def int4_def INT_MAX_def)
  have c: "case Some ''Weekend rate'' of Some c \<Rightarrow> text_ok c | None \<Rightarrow> True"
    by (simp add: text_ok_def)
  have v: "mergeKnowledge 7 1 2 (Some ''Weekend rate'') two_row_store =
     (Inr True,
      \<lparr>rows = [example_row\<lparr>content := ''Weekend rate'', tags := [''billing'', ''stripe''],
                           access_count := 7, confidence := 9 / 10, updated_at := 7\<rparr>],
       next_id = 3\<rparr>)"
    by (simp add: mergeKnowledge_def select_by_id_def two_row_store_def example_row_def
        second_row_def Let_def int4_def INT_MAX_def text_ok_def)
  have "list_all (\<lambda>r. id_row r \<noteq> 2)
     (rows (snd (mergeKnowledge 7 1 2 (Some ''Weekend rate'') two_row_store)))"
    using mergeKnowledge_combines [OF w n k d a c, of 7] by (elim conjE)
  then show ?thesis
    using w n k d a c v by simp
qed

text \<open>
  Claim C3 as stated fails in three ways. When the keep id and the delete id are the same,
  both rows exist, merge returns true, and the row is deleted, so no keep row is left.
  When the two access counts sum to more than the largest INT, merge raises and changes
  nothing. When the merged content holds NUL, merge raises and changes nothing.
\<close>

theorem mergeKnowledge_combines_counterexample:
  "find (\<lambda>r. id_row r = 1) (rows single_row_store) = Some example_row \<and>
   fst (mergeKnowledge 5 1 1 None single_row_store) = Inr True \<and>
   find (\<lambda>r. id_row r = 1) (rows (snd (mergeKnowledge 5 1 1 None single_row_store))) = None \<and>
   find (\<lambda>r. id_row r = 1) (rows saturated_store) = Some example_row \<and>
   find (\<lambda>r. id_row r = 2) (rows saturated_store)
     = Some (second_row\<lparr>access_count := 2147483647\<rparr>) \<and>
   mergeKnowledge 5 1 2 None saturated_store = (Inl NumericValueOutOfRange, saturated_store) \<and>
   mergeKnowledge 5 1 2 (Some [CHR 0x00]) two_row_store
     = (Inl CharacterNotInRepertoire, two_row_store)"
  by (simp add: mergeKnowledge_def select_by_id_def single_row_store_def example_row_def
      second_row_def saturated_store_def two_row_store_def Let_def int4_def INT_MAX_def
      text_ok_def)

section \<open>Properties of save\<close>












section \<open>Properties of the pruning sweeper\<close>

lemma not_immune_filter:
  "(\<lambda>r. memory_type r \<noteq> Core \<and> ''protected'' \<notin> set (tags r)) = (\<lambda>r. \<not> immune r)"
  by (simp add: immune_def fun_eq_iff)

lemma prune_candidates_scored:
  assumes "scored_by eng now sc s"
  shows "prune_candidates eng now s =
     Inr (sort_key pe_score (filter (\<lambda>e. pe_score e < 0.3)
       (map (\<lambda>r. \<lparr>pe_id = id_row r, pe_topic = topic r, pe_source = source r,
                    pe_score = sc r\<rparr>) (filter (\<lambda>r. \<not> immune r) (rows s)))))"
proof -
  have "list_all (\<lambda>r. bind_err (row_score eng now r)
                        (\<lambda>sc. Inr \<lparr>pe_id = id_row r, pe_topic = topic r, pe_source = source r,
                                    pe_score = sc\<rparr>)
                     = Inr \<lparr>pe_id = id_row r, pe_topic = topic r, pe_source = source r,
                           pe_score = sc r\<rparr>) (filter (\<lambda>r. \<not> immune r) (rows s))"
    using assms by (auto simp add: scored_by_def list_all_iff)
  then show ?thesis
    unfolding prune_candidates_def not_immune_filter by (simp add: map_err_Inr)
qed

lemma set_prune_candidates:
  assumes "prune_candidates eng now s = Inr cs" and "scored_by eng now sc s"
  shows "set cs =
     (\<lambda>r. \<lparr>pe_id = id_row r, pe_topic = topic r, pe_source = source r, pe_score = sc r\<rparr>) `
       {r \<in> set (rows s). \<not> immune r \<and> sc r < 3 / 10}"
  using assms(1) unfolding prune_candidates_scored [OF assms(2)] by auto

lemma pe_id_image:
  "pe_id ` {e \<in> (\<lambda>r. \<lparr>pe_id = id_row r, pe_topic = topic r, pe_source = source r,
                          pe_score = sc r\<rparr>) ` A. Q (pe_score e)}
     = id_row ` {r \<in> A. Q (sc r)}"
proof (intro set_eqI iffI)
  fix i
  assume "i \<in> pe_id ` {e \<in> (\<lambda>r. \<lparr>pe_id = id_row r, pe_topic = topic r, pe_source = source r,
                          pe_score = sc r\<rparr>) ` A. Q (pe_score e)}"
  then obtain r where "r \<in> A" "Q (sc r)" "i = id_row r"
    by auto
  then show "i \<in> id_row ` {r \<in> A. Q (sc r)}"
    by blast
next
  fix i
  assume "i \<in> id_row ` {r \<in> A. Q (sc r)}"
  then obtain r where r: "r \<in> A" "Q (sc r)" "i = id_row r"
    by auto
  let ?e = "\<lparr>pe_id = id_row r, pe_topic = topic r, pe_source = source r, pe_score = sc r\<rparr>"
  have "?e \<in> {e \<in> (\<lambda>r. \<lparr>pe_id = id_row r, pe_topic = topic r, pe_source = source r,
                          pe_score = sc r\<rparr>) ` A. Q (pe_score e)}"
    using r by simp
  moreover have "pe_id ?e = i"
    using r by simp
  ultimately show "i \<in> pe_id ` {e \<in> (\<lambda>r. \<lparr>pe_id = id_row r, pe_topic = topic r,
      pe_source = source r, pe_score = sc r\<rparr>) ` A. Q (pe_score e)}"
    by (rule rev_image_eqI [OF _ sym])
qed

text \<open>What a sweep does when the scoring of every candidate row returns.\<close>

lemma prune_outcome:
  assumes "scored_by eng now sc s"
  obtains cs where "prune_candidates eng now s = Inr cs"
    and "pruneStaleEntries eng now dryRun s =
       (Inr \<lparr>deleted = filter (\<lambda>e. pe_score e < 0.1) cs,
             flagged = filter (\<lambda>e. 0.1 \<le> pe_score e \<and> pe_score e < 0.3) cs\<rparr>,
        if \<not> dryRun \<and> filter (\<lambda>e. pe_score e < 0.1) cs \<noteq> []
        then s\<lparr>rows := filter (\<lambda>r. id_row r \<notin> set (map pe_id (filter (\<lambda>e. pe_score e < 0.1) cs)))
                          (rows s)\<rparr>
        else s)"
    and "set (map pe_id (filter (\<lambda>e. pe_score e < 0.1) cs)) =
       id_row ` {r \<in> set (rows s). deletion_candidate sc r}"
    and "set (map pe_id (filter (\<lambda>e. 0.1 \<le> pe_score e \<and> pe_score e < 0.3) cs)) =
       id_row ` {r \<in> set (rows s). flag_candidate sc r}"
proof -
  obtain cs where cs: "prune_candidates eng now s = Inr cs"
    using prune_candidates_scored [OF assms] by simp
  have out: "pruneStaleEntries eng now dryRun s =
       (Inr \<lparr>deleted = filter (\<lambda>e. pe_score e < 0.1) cs,
             flagged = filter (\<lambda>e. 0.1 \<le> pe_score e \<and> pe_score e < 0.3) cs\<rparr>,
        if \<not> dryRun \<and> filter (\<lambda>e. pe_score e < 0.1) cs \<noteq> []
        then s\<lparr>rows := filter (\<lambda>r. id_row r \<notin> set (map pe_id (filter (\<lambda>e. pe_score e < 0.1) cs)))
                          (rows s)\<rparr>
        else s)"
    by (simp add: pruneStaleEntries_def cs Let_def)
  have "set (map pe_id (filter (\<lambda>e. pe_score e < 0.1) cs)) =
        pe_id ` {e \<in> set cs. pe_score e < 1 / 10}"
    by simp
  also have "\<dots> = id_row ` {r \<in> {r \<in> set (rows s). \<not> immune r \<and> sc r < 3 / 10}. sc r < 1 / 10}"
    unfolding set_prune_candidates [OF cs assms] by (rule pe_id_image)
  also have "\<dots> = id_row ` {r \<in> set (rows s). deletion_candidate sc r}"
    by (rule arg_cong [where f = "\<lambda>S. id_row ` S"]) (auto simp add: deletion_candidate_def)
  finally have del: "set (map pe_id (filter (\<lambda>e. pe_score e < 0.1) cs)) =
       id_row ` {r \<in> set (rows s). deletion_candidate sc r}" .
  have "set (map pe_id (filter (\<lambda>e. 0.1 \<le> pe_score e \<and> pe_score e < 0.3) cs)) =
        pe_id ` {e \<in> set cs. 1 / 10 \<le> pe_score e \<and> pe_score e < 3 / 10}"
    by simp
  also have "\<dots> = id_row ` {r \<in> {r \<in> set (rows s). \<not> immune r \<and> sc r < 3 / 10}.
                        1 / 10 \<le> sc r \<and> sc r < 3 / 10}"
    unfolding set_prune_candidates [OF cs assms]
    by (rule pe_id_image [where Q = "\<lambda>x. 1 / 10 \<le> x \<and> x < 3 / 10"])
  also have "\<dots> = id_row ` {r \<in> set (rows s). flag_candidate sc r}"
    by (rule arg_cong [where f = "\<lambda>S. id_row ` S"]) (auto simp add: flag_candidate_def)
  finally have flag: "set (map pe_id (filter (\<lambda>e. 0.1 \<le> pe_score e \<and> pe_score e < 0.3) cs)) =
       id_row ` {r \<in> set (rows s). flag_candidate sc r}" .
  from cs out del flag show ?thesis by (rule that)
qed

lemma prune_dry_run:
  assumes "scored_by eng now sc s"
  shows "snd (pruneStaleEntries eng now True s) = s"
proof -
  obtain cs where "pruneStaleEntries eng now True s =
       (Inr \<lparr>deleted = filter (\<lambda>e. pe_score e < 0.1) cs,
             flagged = filter (\<lambda>e. 0.1 \<le> pe_score e \<and> pe_score e < 0.3) cs\<rparr>,
        if \<not> True \<and> filter (\<lambda>e. pe_score e < 0.1) cs \<noteq> []
        then s\<lparr>rows := filter (\<lambda>r. id_row r \<notin> set (map pe_id (filter (\<lambda>e. pe_score e < 0.1) cs)))
                          (rows s)\<rparr>
        else s)"
    by (rule prune_outcome [OF assms])
  then show ?thesis by simp
qed

lemma prune_result_ids:
  assumes "scored_by eng now sc s"
  shows "result_ids (fst (pruneStaleEntries eng now dryRun s)) =
     Some (id_row ` {r \<in> set (rows s). deletion_candidate sc r},
           id_row ` {r \<in> set (rows s). flag_candidate sc r})"
proof -
  obtain cs where "pruneStaleEntries eng now dryRun s =
       (Inr \<lparr>deleted = filter (\<lambda>e. pe_score e < 0.1) cs,
             flagged = filter (\<lambda>e. 0.1 \<le> pe_score e \<and> pe_score e < 0.3) cs\<rparr>,
        if \<not> dryRun \<and> filter (\<lambda>e. pe_score e < 0.1) cs \<noteq> []
        then s\<lparr>rows := filter (\<lambda>r. id_row r \<notin> set (map pe_id (filter (\<lambda>e. pe_score e < 0.1) cs)))
                          (rows s)\<rparr>
        else s)"
    and "set (map pe_id (filter (\<lambda>e. pe_score e < 0.1) cs)) =
       id_row ` {r \<in> set (rows s). deletion_candidate sc r}"
    and "set (map pe_id (filter (\<lambda>e. 0.1 \<le> pe_score e \<and> pe_score e < 0.3) cs)) =
       id_row ` {r \<in> set (rows s). flag_candidate sc r}"
    by (rule prune_outcome [OF assms])
  then show ?thesis
    by (simp add: result_ids_def del: set_map)
qed

lemma prune_rows:
  assumes "wf_store s" and "scored_by eng now sc s"
  shows "snd (pruneStaleEntries eng now False s) =
           s\<lparr>rows := filter (\<lambda>r. \<not> deletion_candidate sc r) (rows s)\<rparr>"
proof -
  obtain cs where out: "pruneStaleEntries eng now False s =
       (Inr \<lparr>deleted = filter (\<lambda>e. pe_score e < 0.1) cs,
             flagged = filter (\<lambda>e. 0.1 \<le> pe_score e \<and> pe_score e < 0.3) cs\<rparr>,
        if \<not> False \<and> filter (\<lambda>e. pe_score e < 0.1) cs \<noteq> []
        then s\<lparr>rows := filter (\<lambda>r. id_row r \<notin> set (map pe_id (filter (\<lambda>e. pe_score e < 0.1) cs)))
                          (rows s)\<rparr>
        else s)"
    and del: "set (map pe_id (filter (\<lambda>e. pe_score e < 0.1) cs)) =
       id_row ` {r \<in> set (rows s). deletion_candidate sc r}"
    by (rule prune_outcome [OF assms(2)])
  let ?del = "filter (\<lambda>e. pe_score e < 0.1) cs"
  have d: "distinct (map id_row (rows s))"
    using assms(1) by (simp add: wf_store_def)
  have mem: "id_row r \<notin> set (map pe_id ?del) \<longleftrightarrow> \<not> deletion_candidate sc r"
    if "r \<in> set (rows s)" for r
    unfolding del using id_in_image_distinct [OF d that] by simp
  have f: "filter (\<lambda>r. id_row r \<notin> set (map pe_id ?del)) (rows s) =
           filter (\<lambda>r. \<not> deletion_candidate sc r) (rows s)"
    by (rule filter_cong) (simp_all only: mem)
  have e: "filter (\<lambda>r. \<not> deletion_candidate sc r) (rows s) = rows s" if "?del = []"
  proof -
    have "id_row ` {r \<in> set (rows s). deletion_candidate sc r} = {}"
      using that del by simp
    then show ?thesis by (auto simp add: filter_id_conv)
  qed
  show ?thesis
  proof (cases "?del = []")
    case True
    then show ?thesis
      using out e by simp
  next
    case False
    have "snd (pruneStaleEntries eng now False s) =
        s\<lparr>rows := filter (\<lambda>r. id_row r \<notin> set (map pe_id ?del)) (rows s)\<rparr>"
      unfolding out snd_conv using False by (simp only: simp_thms if_True)
    then show ?thesis
      unfolding f .
  qed
qed

text \<open>With the exact engine the scorer returns the score of the specification's formula.\<close>

lemma scored_exact:
  assumes "list_all (\<lambda>r. immune r \<or> (0 \<le> access_count r \<and> access_count r < INT_MAX)) (rows s)"
  shows "scored_by exact_engine now (entry_score now) s"
  unfolding scored_by_def list_all_iff
proof
  fix r
  assume "r \<in> set (rows s)"
  with assms have "immune r \<or> (0 \<le> access_count r \<and> access_count r < INT_MAX)"
    by (simp add: list_all_iff)
  then show "immune r \<or> row_score exact_engine now r = Inr (entry_score now r)"
    unfolding row_score_def entry_score_def
    by (auto intro: retention_score_exact)
qed

text \<open>A sweep raises exactly when the scoring of a candidate row raises.\<close>

lemma prune_raises_iff:
  "isl (fst (pruneStaleEntries eng now dryRun s)) \<longleftrightarrow>
     list_ex (\<lambda>r. \<not> immune r \<and> isl (row_score eng now r)) (rows s)"
proof
  assume raised: "isl (fst (pruneStaleEntries eng now dryRun s))"
  show "list_ex (\<lambda>r. \<not> immune r \<and> isl (row_score eng now r)) (rows s)"
  proof (rule ccontr)
    assume "\<not> list_ex (\<lambda>r. \<not> immune r \<and> isl (row_score eng now r)) (rows s)"
    then have "scored_by eng now (\<lambda>r. projr (row_score eng now r)) s"
      by (auto simp add: scored_by_def list_all_iff list_ex_iff)
    then obtain cs where "prune_candidates eng now s = Inr cs"
      using prune_candidates_scored by blast
    then have "\<not> isl (fst (pruneStaleEntries eng now dryRun s))"
      by (simp add: pruneStaleEntries_def Let_def)
    with raised show False by simp
  qed
next
  assume "list_ex (\<lambda>r. \<not> immune r \<and> isl (row_score eng now r)) (rows s)"
  then obtain r where r: "r \<in> set (rows s)" "\<not> immune r" "isl (row_score eng now r)"
    by (auto simp add: list_ex_iff)
  then obtain e where "row_score eng now r = Inl e"
    by (cases "row_score eng now r") simp_all
  with r have "list_ex (\<lambda>r. isl (bind_err (row_score eng now r)
                        (\<lambda>sc. Inr \<lparr>pe_id = id_row r, pe_topic = topic r, pe_source = source r,
                                    pe_score = sc\<rparr>)))
                 (filter (\<lambda>r. \<not> immune r) (rows s))"
    by (auto simp add: list_ex_iff)
  then have "isl (map_err (\<lambda>r. bind_err (row_score eng now r)
                        (\<lambda>sc. Inr \<lparr>pe_id = id_row r, pe_topic = topic r, pe_source = source r,
                                    pe_score = sc\<rparr>))
                 (filter (\<lambda>r. \<not> immune r) (rows s)))"
    by (rule map_err_Inl)
  then obtain e' where "prune_candidates eng now s = Inl e'"
    unfolding prune_candidates_def not_immune_filter
    by (cases "map_err (\<lambda>r. bind_err (row_score eng now r)
                        (\<lambda>sc. Inr \<lparr>pe_id = id_row r, pe_topic = topic r, pe_source = source r,
                                    pe_score = sc\<rparr>))
                 (filter (\<lambda>r. \<not> immune r) (rows s))") simp_all
  then show "isl (fst (pruneStaleEntries eng now dryRun s))"
    by (simp add: pruneStaleEntries_def)
qed

lemma prune_raise_unchanged:
  "isl (fst (pruneStaleEntries eng now dryRun s)) \<Longrightarrow> snd (pruneStaleEntries eng now dryRun s) = s"
  by (cases "prune_candidates eng now s") (simp_all add: pruneStaleEntries_def Let_def)

text \<open>The rows that are core or protected are not read by the scoring of a sweep.\<close>

lemma prune_ignores_immune:
  "fst (pruneStaleEntries eng now dryRun
          (s\<lparr>rows := map (\<lambda>r. if immune r
                                then r\<lparr>confidence := cf r, access_count := ac r,
                                       last_accessed := la r, created_at := cr r\<rparr>
                                else r) (rows s)\<rparr>))
     = fst (pruneStaleEntries eng now dryRun s)"
proof -
  have "filter (\<lambda>r. \<not> immune r)
          (map (\<lambda>r. if immune r
                     then r\<lparr>confidence := cf r, access_count := ac r,
                            last_accessed := la r, created_at := cr r\<rparr>
                     else r) xs) = filter (\<lambda>r. \<not> immune r) xs" for xs
    by (induction xs) (simp_all add: immune_def)
  then have "prune_candidates eng now
          (s\<lparr>rows := map (\<lambda>r. if immune r
                                then r\<lparr>confidence := cf r, access_count := ac r,
                                       last_accessed := la r, created_at := cr r\<rparr>
                                else r) (rows s)\<rparr>) = prune_candidates eng now s"
    unfolding prune_candidates_def not_immune_filter by simp
  then show ?thesis
    by (cases "prune_candidates eng now s") (simp_all add: pruneStaleEntries_def Let_def)
qed

lemma prune_dry_run_any: "snd (pruneStaleEntries eng now True s) = s"
  by (cases "prune_candidates eng now s") (simp_all add: pruneStaleEntries_def Let_def)

text \<open>
  Claim C5, amended. On a well-formed table a dry run leaves the table as it is. When
  every row that is neither core nor protected has an access count from 0 to below the
  largest INT, a sweep with the exact engine removes, when it is not a dry run, exactly the rows
  that are neither core nor protected and whose score by the formula of the specification
  is below 0.1, and changes nothing else; in either mode it returns as deleted the ids of
  those rows and as flagged the ids of the rows, neither core nor protected, whose score is
  at least 0.1 and below 0.3. With any engine, when \<open>sc\<close> is the score the scoring
  function returns for the rows that are neither core nor protected, the same holds with
  \<open>sc\<close> as the score; the flagged rows stay in the table, and the core and protected rows
  stay in the table and are in neither list. A sweep raises exactly when the scoring of a
  row that is neither core nor protected raises, and then leaves the table as it is. What
  a sweep returns does not depend on the confidence, the access count and the two
  timestamps of the core and protected rows: their score is not computed.
\<close>

theorem pruneStaleEntries_deletes_exactly:
  assumes "wf_store s"
  shows "snd (pruneStaleEntries eng now True s) = s \<and>
     (list_all (\<lambda>r. immune r \<or> (0 \<le> access_count r \<and> access_count r < INT_MAX)) (rows s) \<longrightarrow>
        snd (pruneStaleEntries exact_engine now False s) =
          s\<lparr>rows := filter (\<lambda>r. \<not> deletion_candidate (entry_score now) r) (rows s)\<rparr> \<and>
        result_ids (fst (pruneStaleEntries exact_engine now dryRun s)) =
          Some (id_row ` {r \<in> set (rows s). deletion_candidate (entry_score now) r},
                id_row ` {r \<in> set (rows s). flag_candidate (entry_score now) r})) \<and>
     (scored_by eng now sc s \<longrightarrow>
        snd (pruneStaleEntries eng now False s) =
          s\<lparr>rows := filter (\<lambda>r. \<not> deletion_candidate sc r) (rows s)\<rparr> \<and>
        result_ids (fst (pruneStaleEntries eng now dryRun s)) =
          Some (id_row ` {r \<in> set (rows s). deletion_candidate sc r},
                id_row ` {r \<in> set (rows s). flag_candidate sc r}) \<and>
        (\<forall>r \<in> set (rows s). flag_candidate sc r \<longrightarrow>
           r \<in> set (rows (snd (pruneStaleEntries eng now False s)))) \<and>
        (\<forall>r \<in> set (rows s). immune r \<longrightarrow>
           r \<in> set (rows (snd (pruneStaleEntries eng now False s))) \<and>
           id_row r \<notin> id_row ` {r \<in> set (rows s). deletion_candidate sc r} \<and>
           id_row r \<notin> id_row ` {r \<in> set (rows s). flag_candidate sc r})) \<and>
     (isl (fst (pruneStaleEntries eng now dryRun s)) \<longleftrightarrow>
        list_ex (\<lambda>r. \<not> immune r \<and> isl (row_score eng now r)) (rows s)) \<and>
     (isl (fst (pruneStaleEntries eng now dryRun s)) \<longrightarrow>
        snd (pruneStaleEntries eng now dryRun s) = s) \<and>
     fst (pruneStaleEntries eng now dryRun
            (s\<lparr>rows := map (\<lambda>r. if immune r
                                  then r\<lparr>confidence := cf r, access_count := ac r,
                                         last_accessed := la r, created_at := cr r\<rparr>
                                  else r) (rows s)\<rparr>))
       = fst (pruneStaleEntries eng now dryRun s)"
proof -
  have d: "distinct (map id_row (rows s))"
    using assms by (simp add: wf_store_def)
  have exact: "snd (pruneStaleEntries exact_engine now False s) =
          s\<lparr>rows := filter (\<lambda>r. \<not> deletion_candidate (entry_score now) r) (rows s)\<rparr> \<and>
        result_ids (fst (pruneStaleEntries exact_engine now dryRun s)) =
          Some (id_row ` {r \<in> set (rows s). deletion_candidate (entry_score now) r},
                id_row ` {r \<in> set (rows s). flag_candidate (entry_score now) r})"
    if "list_all (\<lambda>r. immune r \<or> (0 \<le> access_count r \<and> access_count r < INT_MAX)) (rows s)"
    using prune_rows [OF assms scored_exact [OF that]] prune_result_ids [OF scored_exact [OF that]]
    by (rule conjI)
  have general: "snd (pruneStaleEntries eng now False s) =
          s\<lparr>rows := filter (\<lambda>r. \<not> deletion_candidate sc r) (rows s)\<rparr> \<and>
        result_ids (fst (pruneStaleEntries eng now dryRun s)) =
          Some (id_row ` {r \<in> set (rows s). deletion_candidate sc r},
                id_row ` {r \<in> set (rows s). flag_candidate sc r}) \<and>
        (\<forall>r \<in> set (rows s). flag_candidate sc r \<longrightarrow>
           r \<in> set (rows (snd (pruneStaleEntries eng now False s)))) \<and>
        (\<forall>r \<in> set (rows s). immune r \<longrightarrow>
           r \<in> set (rows (snd (pruneStaleEntries eng now False s))) \<and>
           id_row r \<notin> id_row ` {r \<in> set (rows s). deletion_candidate sc r} \<and>
           id_row r \<notin> id_row ` {r \<in> set (rows s). flag_candidate sc r})"
    if sc: "scored_by eng now sc s"
  proof (intro conjI ballI impI)
    show "snd (pruneStaleEntries eng now False s) =
          s\<lparr>rows := filter (\<lambda>r. \<not> deletion_candidate sc r) (rows s)\<rparr>"
      by (rule prune_rows [OF assms sc])
    show "result_ids (fst (pruneStaleEntries eng now dryRun s)) =
          Some (id_row ` {r \<in> set (rows s). deletion_candidate sc r},
                id_row ` {r \<in> set (rows s). flag_candidate sc r})"
      by (rule prune_result_ids [OF sc])
    show "r \<in> set (rows (snd (pruneStaleEntries eng now False s)))"
      if "r \<in> set (rows s)" "flag_candidate sc r" for r
      using that by (simp add: prune_rows [OF assms sc] flag_candidate_def deletion_candidate_def)
    show "r \<in> set (rows (snd (pruneStaleEntries eng now False s)))"
      if "r \<in> set (rows s)" "immune r" for r
      using that by (simp add: prune_rows [OF assms sc] deletion_candidate_def)
    show "id_row r \<notin> id_row ` {r \<in> set (rows s). deletion_candidate sc r}"
      if "r \<in> set (rows s)" "immune r" for r
      using id_in_image_distinct [OF d that(1)] that(2) by (simp add: deletion_candidate_def)
    show "id_row r \<notin> id_row ` {r \<in> set (rows s). flag_candidate sc r}"
      if "r \<in> set (rows s)" "immune r" for r
      using id_in_image_distinct [OF d that(1)] that(2) by (simp add: flag_candidate_def)
  qed
  show ?thesis
    apply (intro conjI)
    apply (rule prune_dry_run_any)
    apply (rule impI)
    apply (erule exact)
    apply (rule impI)
    apply (erule general)
    apply (rule prune_raises_iff)
    apply (rule impI)
    apply (erule prune_raise_unchanged)
    apply (rule prune_ignores_immune)
    done
qed

theorem pruneStaleEntries_deletes_exactly_witness:
  "wf_store aged_store \<and>
   list_all (\<lambda>r. immune r \<or> (0 \<le> access_count r \<and> access_count r < INT_MAX))
     (rows aged_store) \<and>
   snd (pruneStaleEntries exact_engine (day 200) True aged_store) = aged_store \<and>
   rows (snd (pruneStaleEntries exact_engine (day 200) False aged_store)) =
     [aged_row 2 (Some (day 110)) Pattern [], aged_row 3 None Core [],
      aged_row 4 None Pattern [''protected'']] \<and>
   entry_score (day 200) (aged_row 1 None Pattern []) = 0 \<and>
   entry_score (day 200) (aged_row 2 (Some (day 110)) Pattern []) = 15 / 100"
proof -
  have wf: "wf_store aged_store"
    by (simp add: wf_store_def aged_store_def aged_row_def int4_def INT_MAX_def)
  have rg: "list_all (\<lambda>r. immune r \<or> (0 \<le> access_count r \<and> access_count r < INT_MAX))
     (rows aged_store)"
    by (simp add: aged_store_def aged_row_def INT_MAX_def)
  have s1: "entry_score (day 200) (aged_row 1 None Pattern []) = 0"
    by (simp add: entry_score_def score_spec_def clamp_def aged_row_def day_def)
  have s2: "entry_score (day 200) (aged_row 2 (Some (day 110)) Pattern []) = 15 / 100"
    by (simp add: entry_score_def score_spec_def clamp_def aged_row_def day_def)
  have d1: "deletion_candidate (entry_score (day 200)) (aged_row 1 None Pattern [])"
    unfolding deletion_candidate_def s1 by (simp add: immune_def aged_row_def)
  have d2: "\<not> deletion_candidate (entry_score (day 200)) (aged_row 2 (Some (day 110)) Pattern [])"
    by (simp add: deletion_candidate_def s2)
  have d3: "\<not> deletion_candidate (entry_score (day 200)) (aged_row 3 None Core [])"
    by (simp add: deletion_candidate_def immune_def aged_row_def)
  have d4: "\<not> deletion_candidate (entry_score (day 200)) (aged_row 4 None Pattern [''protected''])"
    by (simp add: deletion_candidate_def immune_def aged_row_def)
  note th = pruneStaleEntries_deletes_exactly [OF wf, where eng = exact_engine
      and now = "day 200" and dryRun = True and sc = "entry_score (day 200)"
      and cf = confidence and ac = access_count and la = last_accessed and cr = created_at]
  have t1: "snd (pruneStaleEntries exact_engine (day 200) True aged_store) = aged_store"
    using th by (rule conjunct1)
  have t2: "list_all (\<lambda>r. immune r \<or> (0 \<le> access_count r \<and> access_count r < INT_MAX))
        (rows aged_store) \<longrightarrow>
      snd (pruneStaleEntries exact_engine (day 200) False aged_store) =
       aged_store\<lparr>rows := filter (\<lambda>r. \<not> deletion_candidate (entry_score (day 200)) r)
                             (rows aged_store)\<rparr> \<and>
      result_ids (fst (pruneStaleEntries exact_engine (day 200) True aged_store)) =
          Some (id_row ` {r \<in> set (rows aged_store). deletion_candidate (entry_score (day 200)) r},
                id_row ` {r \<in> set (rows aged_store). flag_candidate (entry_score (day 200)) r})"
    using th [THEN conjunct2, THEN conjunct1] .
  have t3: "snd (pruneStaleEntries exact_engine (day 200) False aged_store) =
       aged_store\<lparr>rows := filter (\<lambda>r. \<not> deletion_candidate (entry_score (day 200)) r)
                             (rows aged_store)\<rparr>"
    using t2 [THEN mp, OF rg] by (rule conjunct1)
  have f: "filter (\<lambda>r. \<not> deletion_candidate (entry_score (day 200)) r) (rows aged_store) =
     [aged_row 2 (Some (day 110)) Pattern [], aged_row 3 None Core [],
      aged_row 4 None Pattern [''protected'']]"
    by (simp add: aged_store_def d1 d2 d3 d4 del: One_nat_def)
  have "rows (snd (pruneStaleEntries exact_engine (day 200) False aged_store)) =
     [aged_row 2 (Some (day 110)) Pattern [], aged_row 3 None Core [],
      aged_row 4 None Pattern [''protected'']]"
    unfolding t3 by (simp add: f)
  with t1 wf rg s1 s2 show ?thesis by (intro conjI)
qed

text \<open>
  Claim C5 as stated fails on a table that holds a row, neither core nor protected,
  whose access count is the largest INT. The other row of \<open>aged_saturated_store\<close> is
  neither core nor protected and scores 0, yet the sweep deletes nothing: the scoring of
  the first raises, and so does the sweep.
\<close>

theorem pruneStaleEntries_deletes_exactly_counterexample:
  "wf_store aged_saturated_store \<and>
   hd (rows aged_saturated_store) = aged_row 1 None Pattern [] \<and>
   \<not> immune (aged_row 1 None Pattern []) \<and>
   entry_score (day 200) (aged_row 1 None Pattern []) = 0 \<and>
   pruneStaleEntries exact_engine (day 200) False aged_saturated_store
     = (Inl NumericValueOutOfRange, aged_saturated_store)"
proof -
  have wf: "wf_store aged_saturated_store"
    by (simp add: wf_store_def aged_saturated_store_def aged_row_def int4_def INT_MAX_def)
  have h: "hd (rows aged_saturated_store) = aged_row 1 None Pattern []"
    by (simp add: aged_saturated_store_def)
  have i: "\<not> immune (aged_row 1 None Pattern [])"
    by (simp add: immune_def aged_row_def)
  have s1: "entry_score (day 200) (aged_row 1 None Pattern []) = 0"
    by (simp add: entry_score_def score_spec_def clamp_def aged_row_def day_def)
  have r1: "row_score exact_engine (day 200) (aged_row 1 None Pattern []) = Inr 0"
    by (simp add: row_score_def retention_score_def exact_engine_def aged_row_def day_def
        int4pl_def int4_def INT_MAX_def pg_ln_def)
  have r2: "row_score exact_engine (day 200)
      ((aged_row 2 None Pattern [])\<lparr>access_count := 2147483647\<rparr>) = Inl NumericValueOutOfRange"
    by (simp add: row_score_def retention_score_def exact_engine_def aged_row_def day_def
        int4pl_def int4_def INT_MAX_def)
  have c: "prune_candidates exact_engine (day 200) aged_saturated_store
      = Inl NumericValueOutOfRange"
    by (simp add: prune_candidates_def aged_saturated_store_def r1 r2)
      (simp add: aged_row_def)
  have "pruneStaleEntries exact_engine (day 200) False aged_saturated_store
     = (Inl NumericValueOutOfRange, aged_saturated_store)"
    by (simp add: pruneStaleEntries_def c)
  with wf h i s1 show ?thesis by (intro conjI)
qed

section \<open>The primary key is kept by every operation\<close>

lemma wf_store_empty: "wf_store empty_store"
  by (simp add: wf_store_def empty_store_def)

lemma wf_store_filter:
  assumes "wf_store s"
  shows "wf_store (s\<lparr>rows := filter P (rows s)\<rparr>)"
  using assms by (auto simp add: wf_store_def distinct_map_filter list_all_iff)

lemma wf_store_map:
  assumes "wf_store s" and "\<And>x. id_row (f x) = id_row x"
  shows "wf_store (s\<lparr>rows := map f (rows s)\<rparr>)"
proof -
  have eq: "map (id_row \<circ> f) (rows s) = map id_row (rows s)"
    by (rule map_id_row_update) (rule assms(2))
  show ?thesis
    using assms(1) by (simp add: wf_store_def eq)
qed

lemma wf_store_save_write:
  assumes "wf_store s"
  shows "wf_store (snd (save_write eng now tp ct src tg cf us mt e s))"
proof (cases "text_ok tp \<and> text_ok ct \<and> text_ok src \<and> text_ok us \<and> list_all text_ok tg")
  case False
  with assms show ?thesis by (auto simp add: save_write_def)
next
  case texts: True
  show ?thesis
  proof (cases "cast_real eng cf")
    case (Inl err)
    with texts assms show ?thesis by (simp add: save_write_def)
  next
    case (Inr c)
    show ?thesis
    proof (cases e)
      case None
      have "next_id s \<notin> set (map id_row (rows s))"
        using assms by (auto simp add: wf_store_def list_all_iff)
      with None Inr texts assms show ?thesis
        by (auto simp add: save_write_def wf_store_def list_all_iff int4_def)
    next
      case (Some i)
      have "wf_store (s\<lparr>rows := map (\<lambda>r. if id_row r = i
              then r\<lparr>content := ct, tags := tg, confidence := c, user_id := us,
                     memory_type := mt, updated_at := now\<rparr> else r) (rows s)\<rparr>)"
        by (rule wf_store_map [OF assms]) simp
      with Some Inr texts assms show ?thesis
        by (simp add: save_write_def)
    qed
  qed
qed

lemma wf_store_saveKnowledge:
  "wf_store s \<Longrightarrow> wf_store (snd (saveKnowledge eng p now tp ct src tg cf us mt s))"
  by (cases "save_select p tp src ct s")
    (simp_all add: saveKnowledge_def save_after_select_def Let_def wf_store_save_write)

lemma wf_store_recordAccess: "wf_store s \<Longrightarrow> wf_store (recordAccess now ids s)"
  unfolding recordAccess_def by (auto intro!: wf_store_map)

lemma wf_store_deleteKnowledge: "wf_store s \<Longrightarrow> wf_store (snd (deleteKnowledge i s))"
  by (simp add: deleteKnowledge_def wf_store_filter)

lemma wf_store_pruneStaleEntries:
  "wf_store s \<Longrightarrow> wf_store (snd (pruneStaleEntries eng now dryRun s))"
  by (cases "prune_candidates eng now s")
    (simp_all add: pruneStaleEntries_def Let_def wf_store_filter)

lemma wf_store_mergeKnowledge:
  assumes "wf_store s"
  shows "wf_store (snd (mergeKnowledge now keepId deleteId mergedContent s))"
proof -
  have upd: "wf_store (s\<lparr>rows := filter (\<lambda>r. id_row r \<noteq> deleteId)
      (map (\<lambda>r. if id_row r = keepId then g r else r) (rows s))\<rparr>)"
    if "\<And>r. id_row (g r) = id_row r" for g
  proof -
    have "wf_store (s\<lparr>rows := map (\<lambda>r. if id_row r = keepId then g r else r) (rows s)\<rparr>)"
      by (rule wf_store_map [OF assms]) (simp add: that)
    then have "wf_store (s\<lparr>rows := map (\<lambda>r. if id_row r = keepId then g r else r) (rows s)\<rparr>
        \<lparr>rows := filter (\<lambda>r. id_row r \<noteq> deleteId)
           (rows (s\<lparr>rows := map (\<lambda>r. if id_row r = keepId then g r else r) (rows s)\<rparr>))\<rparr>)"
      by (rule wf_store_filter)
    then show ?thesis by simp
  qed
  show ?thesis
    using assms
    by (auto simp add: mergeKnowledge_def Let_def upd split: sum.splits option.splits)
qed

section \<open>The fallback tier of the search\<close>

lemma searchKnowledge_primary_hits:
  "primary \<noteq> [] \<Longrightarrow>
     searchKnowledge primary query p_source p_tags limit s =
       (primary, map (\<lambda>kr. id_row (fst kr)) primary)"
  by (simp add: searchKnowledge_def)

lemma searchKnowledge_capped:
  "primary = [] \<Longrightarrow>
     length (fst (searchKnowledge primary query p_source p_tags limit s)) \<le> min limit 50"
  by (auto simp add: searchKnowledge_def Let_def)

text \<open>
  Claim C6, at a failing input. The table holds one row of source \<open>website\<close> with the tag
  \<open>billing\<close>, its topic containing \<open>pricing\<close> and its content containing \<open>weekend\<close>. A search
  filtered to source \<open>stripe\<close> and tag \<open>refund\<close>, whose primary tier found nothing, returns
  the row for the query \<open>pricing\<close> although the row passes neither filter; for the query
  \<open>weekend\<close>, which matches the content only, the filters are applied and nothing is
  returned.
\<close>

theorem searchKnowledge_fallback_skips_filters:
  "\<not> source_matches (Some ''stripe'') example_row \<and>
   \<not> tags_match (Some [''refund'']) example_row \<and>
   searchKnowledge [] ''pricing'' (Some ''stripe'') (Some [''refund'']) 10 single_row_store
     = ([(example_row, 1)], [1]) \<and>
   searchKnowledge [] ''weekend'' (Some ''stripe'') (Some [''refund'']) 10 single_row_store
     = ([], [])"
  by code_simp

text \<open>
  The tokens are wrapped in \<open>%\<close> as they are: a token holding \<open>%\<close> is matched as a pattern,
  here against a topic that does not contain it.
\<close>

lemma like_wildcard_in_token:
  "searchKnowledge [] ''pri%les'' None None 10 single_row_store = ([(example_row, 1)], [1]) \<and>
   \<not> str_includes (toLowerCase (topic example_row)) ''pri%les'' \<and>
   \<not> str_includes (toLowerCase (content example_row)) ''pri%les''"
  by code_simp

section \<open>Two saves interleaved\<close>

text \<open>
  Claim C8, at a failing schedule. Two saves of the same natural key start on the empty
  table; both run their SELECT before either runs its write. Each finds no row, each
  inserts, and the table ends with two rows of the same topic, source and content.
\<close>

theorem save_interleaved_inserts_twice:
  "save_select 0 ''booking-api'' ''website'' ''Slots are 30 minutes'' empty_store = Inr None \<and>
   map (\<lambda>r. (id_row r, topic r, source r, content r))
     (rows (snd (save_after_select exact_engine 20 ''booking-api'' ''Slots are 30 minutes''
                   ''website'' [] 1 ''gpopp'' Pattern
                   (save_select 0 ''booking-api'' ''website'' ''Slots are 30 minutes''
                      empty_store)
                   (snd (save_after_select exact_engine 10 ''booking-api''
                           ''Slots are 30 minutes'' ''website'' [] 1 ''cpg'' Pattern
                           (save_select 0 ''booking-api'' ''website'' ''Slots are 30 minutes''
                              empty_store)
                           empty_store)))))
     = [(1, ''booking-api'', ''website'', ''Slots are 30 minutes''),
        (2, ''booking-api'', ''website'', ''Slots are 30 minutes'')]"
  by (simp add: save_select_def save_after_select_def save_write_def empty_store_def
      text_ok_def exact_engine_def INT_MAX_def)

section \<open>Validation at the entry points of save\<close>

lemma classify_plain_topic: "classifyMemoryType ''t'' [] = Pattern"
  by code_simp

text \<open>
  Claim C9, at a failing input. The request \<open>bad_request\<close> names a source outside the
  enumeration and a confidence of 5. The tool \<open>save_knowledge\<close> rejects it and leaves the
  table alone; the route \<open>POST /api/save\<close> stores it as row 1.
\<close>

theorem api_save_stores_invalid_request:
  "\<not> inputSchema bad_request \<and>
   saveKnowledgeTool exact_engine 0 0 bad_request empty_store = (InvalidArguments, empty_store) \<and>
   fst (api_save exact_engine 0 0 bad_request empty_store) = Saved 1 \<and>
   map (\<lambda>r. (id_row r, source r, confidence r))
     (rows (snd (api_save exact_engine 0 0 bad_request empty_store)))
     = [(1, ''bogus'', 5)]"
  by (simp add: inputSchema_def saveKnowledgeTool_def api_save_def save_handler_def falsy_def
      bad_request_def VALID_SOURCES_def saveKnowledge_def save_after_select_def save_select_def
      save_write_def empty_store_def text_ok_def exact_engine_def INT_MAX_def Let_def
      classify_plain_topic)

end
